theory Spec2Isabelle
  imports Complex_Main
begin

section \<open>SceneManager: the scene graph, disposal and camera framing\<close>

text \<open>
  A shallow embedding of \<^verbatim>\<open>src/frontend/3d-frontend/public/Three.js/js/SceneManager.js\<close>.
  The class keeps its state in the fields \<^verbatim>\<open>this.scene\<close>, \<^verbatim>\<open>this.camera\<close>,
  \<^verbatim>\<open>this.controls\<close> and \<^verbatim>\<open>this.renderer\<close>; here the state is a record that every method
  takes and returns. A method that can throw returns \<open>error + viewport\<close>.

  The objects the class handles belong to the three.js library, which is not part of the
  repository. They are modelled as far as the methods use them:
  \<^item> JavaScript numbers are exact rationals (rounding is not modelled);
  \<^item> an object's transform is its \<^verbatim>\<open>position\<close>; rotation and scale are left at their defaults,
    and world matrices are taken to be up to date, so that an object's world position is
    the sum of the positions on the way down from the scene root, which is at the origin;
  \<^item> \<^verbatim>\<open>dispose()\<close> leaves no trace in the objects themselves; the calls are recorded, in
    order, in the field \<open>disposed\<close> of the state;
  \<^item> \<^verbatim>\<open>camera.lookAt(p)\<close> is recorded as the point \<open>p\<close> the camera was aimed at.
\<close>

subsection \<open>Vectors and boxes\<close>

datatype vec3 = Vector3 (vx: rat) (vy: rat) (vz: rat)

definition vadd :: "vec3 \<Rightarrow> vec3 \<Rightarrow> vec3" where
  "vadd a b = Vector3 (vx a + vx b) (vy a + vy b) (vz a + vz b)"

definition vsub :: "vec3 \<Rightarrow> vec3 \<Rightarrow> vec3" where
  "vsub a b = Vector3 (vx a - vx b) (vy a - vy b) (vz a - vz b)"

definition vmin :: "vec3 \<Rightarrow> vec3 \<Rightarrow> vec3" where
  "vmin a b = Vector3 (min (vx a) (vx b)) (min (vy a) (vy b)) (min (vz a) (vz b))"

definition vmax :: "vec3 \<Rightarrow> vec3 \<Rightarrow> vec3" where
  "vmax a b = Vector3 (max (vx a) (vx b)) (max (vy a) (vy b)) (max (vz a) (vz b))"

definition origin :: vec3 where
  "origin = Vector3 0 0 0"

text \<open>
  \<^verbatim>\<open>THREE.Box3\<close>. A fresh \<^verbatim>\<open>new THREE.Box3()\<close> has \<open>min = +\<infinity>\<close> and \<open>max = -\<infinity>\<close>; it is
  the constructor \<open>EmptyBox\<close>. Any other box is a pair of corners.
\<close>

datatype box3 = EmptyBox | Box3 (bmin: vec3) (bmax: vec3)

fun isEmpty :: "box3 \<Rightarrow> bool" where
  "isEmpty EmptyBox = True"
| "isEmpty (Box3 lo hi) = (vx hi < vx lo \<or> vy hi < vy lo \<or> vz hi < vz lo)"

text \<open>\<^verbatim>\<open>Box3.union\<close>: the componentwise minimum of the \<open>min\<close> corners and maximum of the
  \<open>max\<close> corners; with the infinite corners of the fresh box this keeps the other box.\<close>

fun union3 :: "box3 \<Rightarrow> box3 \<Rightarrow> box3" where
  "union3 EmptyBox b = b"
| "union3 a EmptyBox = a"
| "union3 (Box3 lo hi) (Box3 lo' hi') = Box3 (vmin lo lo') (vmax hi hi')"

text \<open>\<^verbatim>\<open>Box3.applyMatrix4\<close> for the world matrix of an object that is only translated: an empty
  box is returned as it is, any other box is shifted.\<close>

definition translate :: "vec3 \<Rightarrow> box3 \<Rightarrow> box3" where
  "translate t b = (if isEmpty b then b else Box3 (vadd (bmin b) t) (vadd (bmax b) t))"

text \<open>\<^verbatim>\<open>Box3.getCenter\<close> and \<^verbatim>\<open>Box3.getSize\<close>: both answer \<open>(0,0,0)\<close> for an empty box.\<close>

definition getCenter :: "box3 \<Rightarrow> vec3" where
  "getCenter b =
     (if isEmpty b then Vector3 0 0 0
      else Vector3 ((vx (bmin b) + vx (bmax b)) * (1/2))
                   ((vy (bmin b) + vy (bmax b)) * (1/2))
                   ((vz (bmin b) + vz (bmax b)) * (1/2)))"

definition getSize :: "box3 \<Rightarrow> vec3" where
  "getSize b = (if isEmpty b then Vector3 0 0 0 else vsub (bmax b) (bmin b))"

subsection \<open>Objects of the scene graph\<close>

text \<open>
  A geometry has an identity, the bounding box of its vertex data (\<open>extent\<close>, what
  \<^verbatim>\<open>computeBoundingBox()\<close> computes) and the field \<^verbatim>\<open>boundingBox\<close>, which is \<^verbatim>\<open>null\<close>
  (\<open>None\<close>) until it has been computed. A material has an identity and an optional texture
  \<^verbatim>\<open>map\<close>, given by the texture's identity.
\<close>

record buffer_geometry =
  geo_id :: nat
  extent :: box3
  boundingBox :: "box3 option"

record material3 =
  mat_id :: nat
  mat_map :: "nat option"

text \<open>The field \<^verbatim>\<open>object.material\<close>: absent, one material, or an array of materials.\<close>

datatype material_slot = NoMaterial | SingleMaterial material3 | MaterialArray "material3 list"

text \<open>The classes the source tells apart with \<^verbatim>\<open>instanceof\<close> and \<^verbatim>\<open>isMesh\<close>. \<open>Group\<close>
  stands for a plain container, \<open>Line\<close> for an object that has a geometry and is not a
  mesh.\<close>

datatype obj_class = Group | Mesh | Line | AmbientLight | DirectionalLight | GridHelper | AxesHelper

datatype object3d =
  Object3D (oid: nat) (cls: obj_class) (position: vec3)
           (geometry: "buffer_geometry option") (material: material_slot)
           (children: "object3d list")

definition instanceof_Light :: "object3d \<Rightarrow> bool" where
  "instanceof_Light ob = (cls ob = AmbientLight \<or> cls ob = DirectionalLight)"

definition instanceof_GridHelper :: "object3d \<Rightarrow> bool" where
  "instanceof_GridHelper ob = (cls ob = GridHelper)"

definition instanceof_AxesHelper :: "object3d \<Rightarrow> bool" where
  "instanceof_AxesHelper ob = (cls ob = AxesHelper)"

definition isMesh :: "object3d \<Rightarrow> bool" where
  "isMesh ob = (cls ob = Mesh)"

text \<open>\<^verbatim>\<open>Object3D.traverse\<close>: the callback sees the object, then its children's subtrees in
  order. The function lists the objects in the order of the visits.\<close>

fun traverse :: "object3d \<Rightarrow> object3d list" where
  "traverse (Object3D i k p g m ch) = Object3D i k p g m ch # concat (map traverse ch)"

text \<open>The calls of \<^verbatim>\<open>dispose()\<close> that are recorded: on a geometry, a material or a texture.\<close>

datatype resource = Geometry nat | Material nat | Texture nat

subsection \<open>The state of a SceneManager\<close>

record scene3d =
  background :: nat
  sc_children :: "object3d list"

record camera3 =
  cam_position :: vec3
  cam_lookAt :: vec3

text \<open>\<^verbatim>\<open>OrbitControls\<close>: its \<^verbatim>\<open>target\<close>, and the number of calls of \<^verbatim>\<open>update()\<close> it has
  received.\<close>

record orbit_controls =
  target :: vec3
  updates :: nat

text \<open>
  \<open>scene\<close> and \<open>controls\<close> are optional because the source tests both fields before use
  (\<^verbatim>\<open>if (!this.scene)\<close>, \<^verbatim>\<open>if (this.controls)\<close>). \<open>next_id\<close> numbers the objects made with
  \<^verbatim>\<open>new\<close>, \<open>renderer_clears\<close> counts the calls of \<^verbatim>\<open>renderer.clear()\<close>.
\<close>

record viewport =
  scene :: "scene3d option"
  camera :: camera3
  controls :: "orbit_controls option"
  disposed :: "resource list"
  renderer_clears :: nat
  next_id :: nat

datatype error = TypeError

text \<open>The nodes of the whole graph, the scene root left out.\<close>

definition graph_nodes :: "viewport \<Rightarrow> object3d list" where
  "graph_nodes vp = (case scene vp of None \<Rightarrow> [] | Some sc \<Rightarrow> concat (map traverse (sc_children sc)))"

definition top_nodes :: "viewport \<Rightarrow> object3d list" where
  "top_nodes vp = (case scene vp of None \<Rightarrow> [] | Some sc \<Rightarrow> sc_children sc)"

subsection \<open>Adding and removing\<close>

text \<open>
  \<^verbatim>\<open>Object3D.add(object)\<close> takes the object away from the parent it has and appends it to the
  children. A reference to an object is modelled by the object's value, and the parent is
  found by looking for that value: \<open>detach\<close> removes it below a node, \<open>scene_add\<close> at the
  top as well. \<^verbatim>\<open>Object3D.remove(object)\<close> is \<^verbatim>\<open>indexOf\<close> followed by \<^verbatim>\<open>splice\<close>: the first
  occurrence goes, which is \<open>remove1\<close> on the children.
\<close>

fun detach :: "object3d \<Rightarrow> object3d \<Rightarrow> object3d" where
  "detach ob (Object3D i k p g m ch) = Object3D i k p g m (remove1 ob (map (detach ob) ch))"

definition scene_add :: "object3d \<Rightarrow> scene3d \<Rightarrow> scene3d" where
  "scene_add ob sc = sc\<lparr>sc_children := remove1 ob (map (detach ob) (sc_children sc)) @ [ob]\<rparr>"


subsection \<open>The default lights and helpers\<close>

text \<open>
  \<^verbatim>\<open>new THREE.GridHelper(20, 20, ...)\<close> is a set of lines in the plane \<open>y = 0\<close> from \<open>-10\<close> to
  \<open>10\<close>; \<^verbatim>\<open>new THREE.AxesHelper(0)\<close> has all its vertices at the origin. Both carry a geometry
  and a line material of their own; the lights carry neither. The number \<open>i\<close> is the fresh
  identity of the object and of what it owns.
\<close>

definition new_GridHelper :: "nat \<Rightarrow> object3d" where
  "new_GridHelper i =
     Object3D i GridHelper (Vector3 0 0 0)
       (Some \<lparr>geo_id = i, extent = Box3 (Vector3 (-10) 0 (-10)) (Vector3 10 0 10), boundingBox = None\<rparr>)
       (SingleMaterial \<lparr>mat_id = i, mat_map = None\<rparr>) []"

definition new_AxesHelper :: "nat \<Rightarrow> object3d" where
  "new_AxesHelper i =
     Object3D i AxesHelper (Vector3 0 0 0)
       (Some \<lparr>geo_id = i, extent = Box3 (Vector3 0 0 0) (Vector3 0 0 0), boundingBox = None\<rparr>)
       (SingleMaterial \<lparr>mat_id = i, mat_map = None\<rparr>) []"

definition new_AmbientLight :: "nat \<Rightarrow> object3d" where
  "new_AmbientLight i = Object3D i AmbientLight (Vector3 0 0 0) None NoMaterial []"

text \<open>Line 65: \<^verbatim>\<open>directionalLight.position.set(10, 20, 15)\<close>.\<close>

definition new_DirectionalLight :: "nat \<Rightarrow> object3d" where
  "new_DirectionalLight i = Object3D i DirectionalLight (Vector3 10 20 15) None NoMaterial []"

text \<open>\<^verbatim>\<open>this.scene.add(new ...)\<close> with a fresh object: it throws without a scene.\<close>

definition add_new :: "(nat \<Rightarrow> object3d) \<Rightarrow> viewport \<Rightarrow> error + viewport" where
  "add_new mk vp =
     (case scene vp of
        None \<Rightarrow> Inl TypeError
      | Some sc \<Rightarrow> Inr (vp\<lparr>scene := Some (scene_add (mk (next_id vp)) sc), next_id := Suc (next_id vp)\<rparr>))"

text \<open>Running the next statement when the one before has not thrown.\<close>

definition and_then :: "error + viewport \<Rightarrow> (viewport \<Rightarrow> error + viewport) \<Rightarrow> error + viewport" where
  "and_then r f = (case r of Inl e \<Rightarrow> Inl e | Inr vp \<Rightarrow> f vp)"

text \<open>\<^verbatim>\<open>initLights()\<close>, lines 58 to 79.\<close>

definition initLights :: "viewport \<Rightarrow> error + viewport" where
  "initLights vp = and_then (add_new new_AmbientLight vp) (add_new new_DirectionalLight)"

text \<open>\<^verbatim>\<open>initSceneElements()\<close>, lines 261 to 272: grid, axes, then the lights.\<close>

definition initSceneElements :: "viewport \<Rightarrow> error + viewport" where
  "initSceneElements vp =
     and_then (and_then (add_new new_GridHelper vp) (add_new new_AxesHelper)) initLights"

subsection \<open>clearScene\<close>

text \<open>
  The class body defines \<^verbatim>\<open>clearScene\<close> twice (lines 105 and 274); the later definition
  replaces the earlier one, so the method of the class is the one of lines 274 to 328.

  Lines 289 to 291: what the method keeps.
\<close>

definition permanent :: "object3d \<Rightarrow> bool" where
  "permanent ob = (instanceof_Light ob \<or> instanceof_GridHelper ob \<or> instanceof_AxesHelper ob)"

text \<open>Lines 309, 310 and 313, 314: a material's texture first, then the material.\<close>

definition dispose_material :: "material3 \<Rightarrow> resource list" where
  "dispose_material m =
     (case mat_map m of None \<Rightarrow> [] | Some t \<Rightarrow> [Texture t]) @ [Material (mat_id m)]"

text \<open>Lines 301 to 316: the calls of \<^verbatim>\<open>dispose()\<close> made for one object. Only the object's own
  geometry and material are looked at.\<close>

definition dispose_object :: "object3d \<Rightarrow> resource list" where
  "dispose_object ob =
     (case geometry ob of None \<Rightarrow> [] | Some g \<Rightarrow> [Geometry (geo_id g)]) @
     (case material ob of
        NoMaterial \<Rightarrow> []
      | MaterialArray ms \<Rightarrow> concat (map dispose_material ms)
      | SingleMaterial m \<Rightarrow> dispose_material m)"

text \<open>Lines 299 to 320, the body of the loop for one object: dispose, then
  \<^verbatim>\<open>this.scene.remove(object)\<close>.\<close>

definition remove_step :: "object3d list \<times> resource list \<Rightarrow> object3d \<Rightarrow> object3d list \<times> resource list" where
  "remove_step st ob = (remove1 ob (fst st), snd st @ dispose_object ob)"

text \<open>Lines 285 to 296: the two lists the method builds from \<^verbatim>\<open>this.scene.children\<close>.\<close>

definition lightsAndHelpers :: "object3d list \<Rightarrow> object3d list" where
  "lightsAndHelpers ch = filter permanent ch"

definition objectsToRemove :: "object3d list \<Rightarrow> object3d list" where
  "objectsToRemove ch = filter (\<lambda>ob. \<not> permanent ob) ch"

definition default_background :: nat where
  "default_background = 0xf0f0f0"

definition clearScene :: "viewport \<Rightarrow> error + viewport" where
  "clearScene vp =
     (case scene vp of
        None \<Rightarrow>
          initSceneElements (vp\<lparr>scene := Some \<lparr>background = default_background, sc_children = []\<rparr>\<rparr>)
      | Some sc \<Rightarrow>
          let st = foldl remove_step (sc_children sc, disposed vp) (objectsToRemove (sc_children sc));
              vp1 = vp\<lparr>scene := Some (sc\<lparr>sc_children := fst st\<rparr>), disposed := snd st\<rparr>
          in if lightsAndHelpers (sc_children sc) = [] then initSceneElements vp1 else Inr vp1)"

subsection \<open>Operations on a sequence\<close>




subsection \<open>Camera presets\<close>







subsection \<open>References into the graph\<close>

text \<open>
  \<^verbatim>\<open>focusOnModel\<close> and \<^verbatim>\<open>centerModel\<close> visit objects and write to them while the graph keeps
  its shape. A visited object is referred to by its path: the indices to follow from the
  children of the scene. \<open>paths_from 0 ch\<close> lists the paths of all objects below the scene
  in the order of \<^verbatim>\<open>traverse\<close>. \<open>get_at\<close> reads the object at a path, together with the world
  position of its parent; \<open>put_at\<close> writes an object back.
\<close>

fun paths_of :: "object3d \<Rightarrow> nat list list"
and paths_from :: "nat \<Rightarrow> object3d list \<Rightarrow> nat list list" where
  "paths_of (Object3D i k p g m ch) = [] # paths_from 0 ch"
| "paths_from j [] = []"
| "paths_from j (c # cs) = map ((#) j) (paths_of c) @ paths_from (Suc j) cs"

fun get_at :: "vec3 \<Rightarrow> object3d list \<Rightarrow> nat list \<Rightarrow> (vec3 \<times> object3d) option" where
  "get_at w ns [] = None"
| "get_at w ns (j # js) =
     (if j < length ns
      then (if js = [] then Some (w, ns ! j)
            else get_at (vadd w (position (ns ! j))) (children (ns ! j)) js)
      else None)"

fun set_children :: "object3d list \<Rightarrow> object3d \<Rightarrow> object3d" where
  "set_children ch' (Object3D i k p g m ch) = Object3D i k p g m ch'"

fun put_at :: "object3d list \<Rightarrow> nat list \<Rightarrow> object3d \<Rightarrow> object3d list" where
  "put_at ns [] ob = ns"
| "put_at ns (j # js) ob =
     (if j < length ns
      then (if js = [] then ns[j := ob]
            else ns[j := set_children (put_at (children (ns ! j)) js ob) (ns ! j)])
      else ns)"

subsection \<open>Bounding boxes of objects\<close>

text \<open>\<^verbatim>\<open>geometry.computeBoundingBox()\<close> stores the box of the vertex data in the geometry.\<close>

definition computeBoundingBox :: "buffer_geometry \<Rightarrow> buffer_geometry" where
  "computeBoundingBox geo = geo\<lparr>boundingBox := Some (extent geo)\<rparr>"

text \<open>What \<^verbatim>\<open>Box3.expandByObject\<close> does with a geometry: compute the box when the field is
  \<^verbatim>\<open>null\<close>, then read the field.\<close>

definition ensureBoundingBox :: "buffer_geometry \<Rightarrow> buffer_geometry \<times> box3" where
  "ensureBoundingBox geo =
     (case boundingBox geo of
        None \<Rightarrow> (computeBoundingBox geo, extent geo)
      | Some bx \<Rightarrow> (geo, bx))"

text \<open>
  \<^verbatim>\<open>Box3.expandByObject(object)\<close>: the box grows by the world box of the object's geometry,
  when it has one, and then by the children's, in order. \<open>w\<close> is the world position of the
  object's parent. The object comes back with the bounding boxes of its subtree filled in.
\<close>

fun expandByObject :: "vec3 \<Rightarrow> object3d \<Rightarrow> box3 \<Rightarrow> object3d \<times> box3"
and expandByObjects :: "vec3 \<Rightarrow> object3d list \<Rightarrow> box3 \<Rightarrow> object3d list \<times> box3" where
  "expandByObject w (Object3D i k p g m ch) b =
     (case g of
        None \<Rightarrow>
          (case expandByObjects (vadd w p) ch b of
             (ch', b') \<Rightarrow> (Object3D i k p None m ch', b'))
      | Some geo \<Rightarrow>
          (case ensureBoundingBox geo of
             (geo', bx) \<Rightarrow>
               (case expandByObjects (vadd w p) ch (union3 b (translate (vadd w p) bx)) of
                  (ch', b') \<Rightarrow> (Object3D i k p (Some geo') m ch', b'))))"
| "expandByObjects w [] b = ([], b)"
| "expandByObjects w (c # cs) b =
     (case expandByObject w c b of
        (c', b1) \<Rightarrow> (case expandByObjects w cs b1 of (cs', b2) \<Rightarrow> (c' # cs', b2)))"

text \<open>\<^verbatim>\<open>new THREE.Box3().setFromObject(object)\<close>: \<^verbatim>\<open>expandByObject\<close> from the empty box.\<close>

definition setFromObject :: "vec3 \<Rightarrow> object3d \<Rightarrow> object3d \<times> box3" where
  "setFromObject w ob = expandByObject w ob EmptyBox"

subsection \<open>focusOnModel\<close>

text \<open>Line 177: the objects the method collects.\<close>

definition focus_filter :: "object3d \<Rightarrow> bool" where
  "focus_filter ob = (isMesh ob \<and> \<not> instanceof_GridHelper ob \<and> \<not> instanceof_AxesHelper ob)"

text \<open>Lines 175 to 180: the references collected by the traversal. The scene root itself is
  visited first and is no mesh.\<close>

definition focus_objects :: "object3d list \<Rightarrow> nat list list" where
  "focus_objects ch =
     filter (\<lambda>path. case get_at origin ch path of None \<Rightarrow> False | Some (w, ob) \<Rightarrow> focus_filter ob)
            (paths_from 0 ch)"

text \<open>\<^verbatim>\<open>object.geometry.computeBoundingBox()\<close> on an object.\<close>

fun compute_own :: "object3d \<Rightarrow> object3d" where
  "compute_own (Object3D i k p g m ch) = Object3D i k p (map_option computeBoundingBox g) m ch"

text \<open>Lines 186 to 190, the body of the loop for one collected object.\<close>

definition focus_step :: "object3d list \<times> box3 \<Rightarrow> nat list \<Rightarrow> object3d list \<times> box3" where
  "focus_step st path =
     (case get_at origin (fst st) path of
        None \<Rightarrow> st
      | Some (w, ob) \<Rightarrow>
          (case setFromObject w (compute_own ob) of
             (ob', objectBox) \<Rightarrow> (put_at (fst st) path ob', union3 (snd st) objectBox)))"

text \<open>Lines 185 to 190: the loop, from \<^verbatim>\<open>new THREE.Box3()\<close>.\<close>

definition focus_bounds :: "object3d list \<Rightarrow> object3d list \<times> box3" where
  "focus_bounds ch = foldl focus_step (ch, EmptyBox) (focus_objects ch)"

text \<open>Line 187 throws for a collected object that has no geometry.\<close>

definition lacks_geometry :: "object3d list \<Rightarrow> nat list \<Rightarrow> bool" where
  "lacks_geometry ch path =
     (case get_at origin ch path of None \<Rightarrow> False | Some (w, ob) \<Rightarrow> geometry ob = None)"

text \<open>\<^verbatim>\<open>focusOnModel()\<close>, lines 173 to 208.\<close>

definition focusOnModel :: "viewport \<Rightarrow> error + viewport" where
  "focusOnModel vp =
     (case scene vp of
        None \<Rightarrow> Inl TypeError
      | Some sc \<Rightarrow>
          let objects = focus_objects (sc_children sc) in
          if objects = [] then Inr vp
          else if list_ex (lacks_geometry (sc_children sc)) objects then Inl TypeError
          else
            let st = focus_bounds (sc_children sc);
                boundingBox = snd st;
                center = getCenter boundingBox;
                sz = getSize boundingBox;
                maxDim = max (max (vx sz) (vy sz)) (vz sz);
                distance = maxDim * 2;
                cam = (camera vp)\<lparr>cam_position :=
                                     Vector3 (vx center + distance) (vy center + distance)
                                             (vz center + distance),
                                   cam_lookAt := center\<rparr>
            in (case controls vp of
                  None \<Rightarrow> Inl TypeError
                | Some c \<Rightarrow>
                    Inr (vp\<lparr>scene := Some (sc\<lparr>sc_children := fst st\<rparr>),
                            camera := cam,
                            controls := Some (c\<lparr>target := center, updates := Suc (updates c)\<rparr>)\<rparr>)))"

subsection \<open>centerModel\<close>

text \<open>Lines 225 to 228 and 243 to 246: the objects the method measures and moves.\<close>

definition center_filter :: "object3d \<Rightarrow> bool" where
  "center_filter ob =
     (isMesh ob \<and> \<not> instanceof_GridHelper ob \<and> \<not> instanceof_AxesHelper ob \<and> \<not> instanceof_Light ob)"

text \<open>Lines 224 to 232, the callback of the first traversal at one object: the state is the
  graph, the box and \<^verbatim>\<open>objectsFound\<close>.\<close>

definition center_step ::
  "object3d list \<times> box3 \<times> bool \<Rightarrow> nat list \<Rightarrow> object3d list \<times> box3 \<times> bool" where
  "center_step st path =
     (case get_at origin (fst st) path of
        None \<Rightarrow> st
      | Some (w, ob) \<Rightarrow>
          if center_filter ob
          then (case expandByObject w ob (fst (snd st)) of
                  (ob', b') \<Rightarrow> (put_at (fst st) path ob', b', True))
          else st)"

definition center_bounds :: "object3d list \<Rightarrow> object3d list \<times> box3 \<times> bool" where
  "center_bounds ch = foldl center_step (ch, EmptyBox, False) (paths_from 0 ch)"

text \<open>Lines 247 and 248, the callback of the second traversal at one position.\<close>

definition shift_xz :: "vec3 \<Rightarrow> vec3 \<Rightarrow> vec3" where
  "shift_xz center p = Vector3 (vx p - vx center) (vy p) (vz p - vz center)"

text \<open>Lines 242 to 251: the second traversal. The callback writes the position of the
  object it is at and nothing else.\<close>

fun move_tree :: "vec3 \<Rightarrow> object3d \<Rightarrow> object3d" where
  "move_tree center (Object3D i k p g m ch) =
     Object3D i k
       (if center_filter (Object3D i k p g m ch) then shift_xz center p else p)
       g m (map (move_tree center) ch)"

text \<open>\<^verbatim>\<open>centerModel()\<close>, lines 214 to 258. No statement of it can throw.\<close>

definition centerModel :: "viewport \<Rightarrow> viewport" where
  "centerModel vp =
     (case scene vp of
        None \<Rightarrow> vp
      | Some sc \<Rightarrow>
          let st = center_bounds (sc_children sc);
              boundingBox = fst (snd st);
              objectsFound = snd (snd st);
              vp1 = vp\<lparr>scene := Some (sc\<lparr>sc_children := fst st\<rparr>)\<rparr>
          in if \<not> objectsFound then vp1
             else
               let center = getCenter boundingBox;
                   vp2 = vp\<lparr>scene := Some (sc\<lparr>sc_children := map (move_tree center) (fst st)\<rparr>)\<rparr>
               in (case controls vp of
                     None \<Rightarrow> vp2
                   | Some c \<Rightarrow>
                       vp2\<lparr>controls := Some (c\<lparr>target := Vector3 0 0 0, updates := Suc (updates c)\<rparr>)\<rparr>))"

subsection \<open>The constructor\<close>




definition blank :: viewport where
  "blank = \<lparr>scene = None,
            camera = \<lparr>cam_position = Vector3 0 0 0, cam_lookAt = Vector3 0 0 (-1)\<rparr>,
            controls = None, disposed = [], renderer_clears = 0, next_id = 0\<rparr>"


text \<open>Erasing every field \<^verbatim>\<open>boundingBox\<close> of a graph: what is left is the objects with their
  classes, positions, vertex data, materials and children.\<close>

fun erase_boxes :: "object3d \<Rightarrow> object3d" where
  "erase_boxes (Object3D i k p g m ch) =
     Object3D i k p (map_option (\<lambda>geo. geo\<lparr>boundingBox := None\<rparr>) g) m (map erase_boxes ch)"

subsection \<open>Default nodes and example scenes\<close>

text \<open>The four objects \<^verbatim>\<open>initSceneElements\<close> makes, numbered from \<open>i\<close>, in the order in which it
  adds them.\<close>

definition default_nodes :: "nat \<Rightarrow> object3d list" where
  "default_nodes i =
     [new_GridHelper i, new_AxesHelper (Suc i), new_AmbientLight (Suc (Suc i)),
      new_DirectionalLight (Suc (Suc (Suc i)))]"

text \<open>A state with the given children of the scene, the camera of \<^verbatim>\<open>setPerspectiveView\<close>
  and fresh controls.\<close>

definition example_state :: "object3d list \<Rightarrow> viewport" where
  "example_state ch =
     \<lparr>scene = Some \<lparr>background = default_background, sc_children = ch\<rparr>,
      camera = \<lparr>cam_position = Vector3 10 10 10, cam_lookAt = Vector3 0 0 0\<rparr>,
      controls = Some \<lparr>target = Vector3 0 0 0, updates = 1\<rparr>,
      disposed = [], renderer_clears = 0, next_id = 1000\<rparr>"

text \<open>A cube of side 2 around its own origin, with a textured material.\<close>

definition cube :: "nat \<Rightarrow> vec3 \<Rightarrow> object3d" where
  "cube i p =
     Object3D i Mesh p
       (Some \<lparr>geo_id = i, extent = Box3 (Vector3 (-1) (-1) (-1)) (Vector3 1 1 1), boundingBox = None\<rparr>)
       (SingleMaterial \<lparr>mat_id = i, mat_map = Some i\<rparr>) []"

text \<open>A loaded model: a group that holds a cube.\<close>

definition model_group :: object3d where
  "model_group = Object3D 200 Group (Vector3 0 0 0) None NoMaterial [cube 201 (Vector3 5 3 (-2))]"


section \<open>Properties\<close>

subsection \<open>Evaluation\<close>

text \<open>Collections of defining equations, for evaluating the methods on given scenes.\<close>

lemmas node_defs = default_nodes_def new_GridHelper_def new_AxesHelper_def new_AmbientLight_def
  new_DirectionalLight_def cube_def model_group_def

lemmas class_defs = permanent_def instanceof_Light_def instanceof_GridHelper_def
  instanceof_AxesHelper_def isMesh_def

lemmas clear_defs = clearScene_def initSceneElements_def initLights_def add_new_def scene_add_def
  objectsToRemove_def lightsAndHelpers_def remove_step_def dispose_object_def dispose_material_def
  default_background_def Let_def

lemmas vec_defs = origin_def vadd_def vsub_def vmin_def vmax_def translate_def getCenter_def
  getSize_def shift_xz_def

lemmas focus_defs = focusOnModel_def focus_objects_def focus_bounds_def focus_step_def
  focus_filter_def lacks_geometry_def setFromObject_def ensureBoundingBox_def
  computeBoundingBox_def

lemmas center_defs = centerModel_def center_bounds_def center_step_def center_filter_def
  ensureBoundingBox_def computeBoundingBox_def


subsection \<open>clearScene\<close>

lemma and_then_Inr [simp]: "and_then (Inr vp) f = f vp"
  by (simp add: and_then_def)

lemma and_then_Inl [simp]: "and_then (Inl e) f = Inl e"
  by (simp add: and_then_def)

lemma foldl_remove_step:
  "foldl remove_step (ch, d) xs =
     (foldl (\<lambda>c ob. remove1 ob c) ch xs, d @ concat (map dispose_object xs))"
  by (induction xs arbitrary: ch d) (simp_all add: remove_step_def)

lemma foldl_remove1_keep:
  "\<forall>y\<in>set ys. y \<noteq> a \<Longrightarrow>
     foldl (\<lambda>c ob. remove1 ob c) (a # zs) ys = a # foldl (\<lambda>c ob. remove1 ob c) zs ys"
  by (induction ys arbitrary: zs) simp_all

lemma foldl_remove1_filter:
  "foldl (\<lambda>c ob. remove1 ob c) ch (filter (\<lambda>ob. \<not> P ob) ch) = filter P ch"
proof (induction ch)
  case Nil
  show ?case by simp
next
  case (Cons a ch)
  show ?case
  proof (cases "P a")
    case True
    then have "\<forall>y\<in>set (filter (\<lambda>ob. \<not> P ob) ch). y \<noteq> a" by auto
    then show ?thesis using True Cons.IH by (simp add: foldl_remove1_keep)
  next
    case False
    then show ?thesis using Cons.IH by simp
  qed
qed

lemma detach_nil [simp]: "map (detach ob) [] = []"
  by simp

lemma initSceneElements_fresh:
  assumes "scene vp = Some sc" and "sc_children sc = []"
  shows "initSceneElements vp =
           Inr (vp\<lparr>scene := Some (sc\<lparr>sc_children := default_nodes (next_id vp)\<rparr>),
                   next_id := Suc (Suc (Suc (Suc (next_id vp))))\<rparr>)"
  using assms
  by (simp add: initSceneElements_def initLights_def add_new_def scene_add_def default_nodes_def
      new_GridHelper_def new_AxesHelper_def new_AmbientLight_def new_DirectionalLight_def)

lemma clearScene_absent:
  assumes "scene vp = None"
  shows "clearScene vp =
           Inr (vp\<lparr>scene := Some \<lparr>background = default_background,
                                  sc_children = default_nodes (next_id vp)\<rparr>,
                   next_id := Suc (Suc (Suc (Suc (next_id vp))))\<rparr>)"
  using assms by (simp add: clearScene_def initSceneElements_fresh)

lemma clearScene_present:
  assumes "scene vp = Some sc"
  shows "clearScene vp =
           Inr (if lightsAndHelpers (sc_children sc) = []
                then vp\<lparr>scene := Some (sc\<lparr>sc_children := default_nodes (next_id vp)\<rparr>),
                        disposed := disposed vp @ concat (map dispose_object (objectsToRemove (sc_children sc))),
                        next_id := Suc (Suc (Suc (Suc (next_id vp))))\<rparr>
                else vp\<lparr>scene := Some (sc\<lparr>sc_children := lightsAndHelpers (sc_children sc)\<rparr>),
                        disposed := disposed vp @ concat (map dispose_object (objectsToRemove (sc_children sc)))\<rparr>)"
proof -
  have rem: "foldl remove_step (sc_children sc, disposed vp) (objectsToRemove (sc_children sc)) =
          (lightsAndHelpers (sc_children sc),
           disposed vp @ concat (map dispose_object (objectsToRemove (sc_children sc))))"
    by (simp add: foldl_remove_step objectsToRemove_def lightsAndHelpers_def foldl_remove1_filter)
  show ?thesis
  proof (cases "lightsAndHelpers (sc_children sc) = []")
    case True
    then show ?thesis using assms rem
      by (simp add: clearScene_def Let_def initSceneElements_fresh)
  next
    case False
    then show ?thesis using assms rem
      by (simp add: clearScene_def Let_def)
  qed
qed

lemma default_nodes_permanent: "n \<in> set (default_nodes i) \<Longrightarrow> permanent n"
  by (auto simp: default_nodes_def permanent_def instanceof_Light_def instanceof_GridHelper_def
      instanceof_AxesHelper_def new_GridHelper_def new_AxesHelper_def new_AmbientLight_def
      new_DirectionalLight_def)


lemma default_nodes_not_nil [simp]: "default_nodes i \<noteq> []"
  by (simp add: default_nodes_def)









text \<open>
  Claim C6. When \<^verbatim>\<open>this.scene\<close> is absent, \<^verbatim>\<open>clearScene\<close> returns normally. The scene is then a
  new one with the background \<open>0xf0f0f0\<close> whose nodes are a grid helper, an axes helper, an
  ambient light and a directional light, freshly made and in this order, and nothing else;
  camera, controls and the record of disposals are as before.
\<close>

theorem clearScene_recreates_missing_scene:
  assumes "scene vp = None"
  shows "\<exists>vp'. clearScene vp = Inr vp' \<and>
           scene vp' = Some \<lparr>background = default_background,
                             sc_children = [new_GridHelper (next_id vp), new_AxesHelper (next_id vp + 1),
                                            new_AmbientLight (next_id vp + 2),
                                            new_DirectionalLight (next_id vp + 3)]\<rparr> \<and>
           map cls (graph_nodes vp') = [GridHelper, AxesHelper, AmbientLight, DirectionalLight] \<and>
           (\<forall>n\<in>set (graph_nodes vp'). permanent n) \<and>
           default_background = 0xf0f0f0 \<and>
           camera vp' = camera vp \<and> controls vp' = controls vp \<and> disposed vp' = disposed vp"
  using assms
  by (simp add: clearScene_absent default_nodes_def graph_nodes_def new_GridHelper_def
      new_AxesHelper_def new_AmbientLight_def new_DirectionalLight_def permanent_def
      instanceof_Light_def instanceof_GridHelper_def instanceof_AxesHelper_def default_background_def)

theorem clearScene_recreates_missing_scene_witness:
  "scene blank = None \<and>
   (\<exists>vp'. clearScene blank = Inr vp' \<and>
      map cls (graph_nodes vp') = [GridHelper, AxesHelper, AmbientLight, DirectionalLight] \<and>
      map oid (graph_nodes vp') = [0, 1, 2, 3] \<and>
      camera vp' = camera blank \<and> disposed vp' = [])"
proof -
  have h: "scene blank = None" by (simp add: blank_def)
  show ?thesis
    using clearScene_recreates_missing_scene [OF h] h
    by (auto simp: graph_nodes_def node_defs blank_def)
qed

text \<open>
  Claim C10, as amended. \<^verbatim>\<open>clearScene\<close> sorts and removes the children of the scene only. The
  disposals it makes are those for the removed children's own geometry and materials;
  nothing is disposed of on account of a node further down. A child that is a light or a
  helper stays with its whole subtree, so a node below it remains in the graph as it was.
  A child that is content is removed, and the nodes below it leave the graph with it:
  the graph afterwards consists of the subtrees of the lights and helpers that were
  children before (or of the four fresh default nodes when there were none).
\<close>

theorem clearScene_top_level_only:
  assumes "scene vp = Some sc"
  shows "\<exists>vp'. clearScene vp = Inr vp' \<and>
           disposed vp' = disposed vp @ concat (map dispose_object (objectsToRemove (sc_children sc))) \<and>
           graph_nodes vp' =
             (if lightsAndHelpers (sc_children sc) = [] then default_nodes (next_id vp)
              else concat (map traverse (lightsAndHelpers (sc_children sc)))) \<and>
           (\<forall>c\<in>set (sc_children sc). permanent c \<longrightarrow>
               c \<in> set (top_nodes vp') \<and> set (traverse c) \<subseteq> set (graph_nodes vp')) \<and>
           (\<forall>c\<in>set (sc_children sc). \<not> permanent c \<longrightarrow> c \<notin> set (top_nodes vp'))"
proof -
  have dn: "concat (map traverse (default_nodes i)) = default_nodes i" for i
    by (simp add: default_nodes_def new_GridHelper_def new_AxesHelper_def new_AmbientLight_def
        new_DirectionalLight_def)
  show ?thesis
  proof (cases "lightsAndHelpers (sc_children sc) = []")
    case True
    then have "\<forall>c\<in>set (sc_children sc). \<not> permanent c"
      by (simp add: lightsAndHelpers_def filter_empty_conv)
    then show ?thesis using assms True
      by (auto simp: clearScene_present graph_nodes_def top_nodes_def dn dest: default_nodes_permanent)
  next
    case False
    then show ?thesis using assms
      by (auto simp: clearScene_present graph_nodes_def top_nodes_def lightsAndHelpers_def)
  qed
qed

theorem clearScene_top_level_only_witness:
  "scene (example_state [new_AmbientLight 1, model_group]) =
     Some \<lparr>background = default_background, sc_children = [new_AmbientLight 1, model_group]\<rparr> \<and>
   (\<exists>vp'. clearScene (example_state [new_AmbientLight 1, model_group]) = Inr vp' \<and>
      disposed vp' = [] \<and> graph_nodes vp' = [new_AmbientLight 1])"
proof -
  have h: "scene (example_state [new_AmbientLight 1, model_group]) =
     Some \<lparr>background = default_background, sc_children = [new_AmbientLight 1, model_group]\<rparr>"
    by (simp add: example_state_def)
  from clearScene_top_level_only [OF h] obtain vp' where
    "clearScene (example_state [new_AmbientLight 1, model_group]) = Inr vp'"
    "disposed vp' = disposed (example_state [new_AmbientLight 1, model_group]) @
       concat (map dispose_object (objectsToRemove
         (sc_children \<lparr>background = default_background, sc_children = [new_AmbientLight 1, model_group]\<rparr>)))"
    "graph_nodes vp' =
             (if lightsAndHelpers (sc_children \<lparr>background = default_background, sc_children = [new_AmbientLight 1, model_group]\<rparr>) = []
              then default_nodes (next_id (example_state [new_AmbientLight 1, model_group]))
              else concat (map traverse (lightsAndHelpers (sc_children \<lparr>background = default_background, sc_children = [new_AmbientLight 1, model_group]\<rparr>))))"
    by blast
  then show ?thesis using h
    by (simp add: example_state_def node_defs class_defs clear_defs)
qed

text \<open>
  Claim C10 as stated fails: a cube inside a group below the scene is content that is not a
  child of the scene; after \<^verbatim>\<open>clearScene\<close> it is not in the graph any more, because its
  group has been removed. No \<^verbatim>\<open>dispose()\<close> has been called.
\<close>

theorem nested_mesh_leaves_with_its_group:
  "cube 201 (Vector3 5 3 (-2)) \<in> set (graph_nodes (example_state [new_AmbientLight 1, model_group])) \<and>
   cube 201 (Vector3 5 3 (-2)) \<notin> set (top_nodes (example_state [new_AmbientLight 1, model_group])) \<and>
   \<not> permanent (cube 201 (Vector3 5 3 (-2))) \<and>
   clearScene (example_state [new_AmbientLight 1, model_group]) = Inr (example_state [new_AmbientLight 1]) \<and>
   cube 201 (Vector3 5 3 (-2)) \<notin> set (graph_nodes (example_state [new_AmbientLight 1])) \<and>
   disposed (example_state [new_AmbientLight 1]) = []"
  by (simp add: example_state_def graph_nodes_def top_nodes_def node_defs class_defs clear_defs)

subsection \<open>Auxiliary facts on traversals and bounds\<close>

lemma ensure_erase:
  "(fst (ensureBoundingBox geo))\<lparr>boundingBox := None\<rparr> = geo\<lparr>boundingBox := None\<rparr>"
  by (simp add: ensureBoundingBox_def computeBoundingBox_def split: option.splits)

lemma expand_erase:
  "erase_boxes (fst (expandByObject w ob b)) = erase_boxes ob"
  "map erase_boxes (fst (expandByObjects w obs b)) = map erase_boxes obs"
proof (induction w ob b and w obs b rule: expandByObject_expandByObjects.induct)
  case (1 w i k p g m ch b)
  show ?case
  proof (cases g)
    case None
    then show ?thesis using 1(1) by (simp split: prod.splits) (metis fst_conv)
  next
    case (Some geo)
    obtain geo' bx where e: "ensureBoundingBox geo = (geo', bx)" by (cases "ensureBoundingBox geo")
    have "geo'\<lparr>boundingBox := None\<rparr> = geo\<lparr>boundingBox := None\<rparr>"
      using ensure_erase [of geo] e by simp
    moreover have "map erase_boxes (fst (expandByObjects (vadd w p) ch (union3 b (translate (vadd w p) bx)))) =
                   map erase_boxes ch"
      using 1(2) [OF Some e [symmetric]] by simp
    ultimately show ?thesis using Some e by (simp split: prod.splits) (metis fst_conv)
  qed
next
  case (2 w b)
  show ?case by simp
next
  case (3 w c cs b)
  obtain c' b1 where c: "expandByObject w c b = (c', b1)" by (cases "expandByObject w c b")
  obtain cs' b2 where cs: "expandByObjects w cs b1 = (cs', b2)" by (cases "expandByObjects w cs b1")
  have "erase_boxes c' = erase_boxes c" using 3(1) c by simp
  moreover have "map erase_boxes cs' = map erase_boxes cs" using 3(2) [OF c [symmetric]] cs by simp
  ultimately show ?case using c cs by simp
qed

lemma compute_own_erase: "erase_boxes (compute_own ob) = erase_boxes ob"
  by (cases ob; cases "geometry ob") (simp_all add: computeBoundingBox_def)

lemma set_children_erase:
  "map erase_boxes ch' = map erase_boxes (children ob) \<Longrightarrow>
     erase_boxes (set_children ch' ob) = erase_boxes ob"
  by (cases ob) simp

lemma put_at_erase:
  "get_at w ns path = Some (w', ob) \<Longrightarrow> erase_boxes ob' = erase_boxes ob \<Longrightarrow>
     map erase_boxes (put_at ns path ob') = map erase_boxes ns"
proof (induction w ns path rule: get_at.induct)
  case (1 w ns)
  then show ?case by simp
next
  case (2 w ns j js)
  show ?case
  proof (cases "j < length ns")
    case False
    then show ?thesis by simp
  next
    case True
    show ?thesis
    proof (cases "js = []")
      case True
      with \<open>j < length ns\<close> 2(2,3) have "erase_boxes ob' = erase_boxes (ns ! j)" by simp
      then show ?thesis using True \<open>j < length ns\<close>
        by (simp add: map_update list_update_same_conv)
    next
      case False
      with \<open>j < length ns\<close> 2 have
        "map erase_boxes (put_at (children (ns ! j)) js ob') = map erase_boxes (children (ns ! j))"
        by simp
      then have "erase_boxes (set_children (put_at (children (ns ! j)) js ob') (ns ! j)) =
                 erase_boxes (ns ! j)"
        by (rule set_children_erase)
      then show ?thesis using False \<open>j < length ns\<close>
        by (simp add: map_update list_update_same_conv)
    qed
  qed
qed

lemma focus_step_erase: "map erase_boxes (fst (focus_step st path)) = map erase_boxes (fst st)"
proof (cases "get_at origin (fst st) path")
  case None
  then show ?thesis by (simp add: focus_step_def)
next
  case (Some r)
  obtain w ob where r: "r = (w, ob)" by (cases r)
  obtain ob' bx where s: "setFromObject w (compute_own ob) = (ob', bx)"
    by (cases "setFromObject w (compute_own ob)")
  have "erase_boxes ob' = erase_boxes ob"
    using expand_erase(1) [of w "compute_own ob" EmptyBox] s
    by (simp add: setFromObject_def compute_own_erase)
  then show ?thesis using Some r s
    by (simp add: focus_step_def put_at_erase)
qed

lemma foldl_focus_step_erase:
  "map erase_boxes (fst (foldl focus_step st paths)) = map erase_boxes (fst st)"
  by (induction paths arbitrary: st) (simp_all add: focus_step_erase)

lemma center_step_erase: "map erase_boxes (fst (center_step st path)) = map erase_boxes (fst st)"
proof (cases "get_at origin (fst st) path")
  case None
  then show ?thesis by (simp add: center_step_def)
next
  case (Some r)
  obtain w ob where r: "r = (w, ob)" by (cases r)
  obtain ob' bx where s: "expandByObject w ob (fst (snd st)) = (ob', bx)"
    by (cases "expandByObject w ob (fst (snd st))")
  have "erase_boxes ob' = erase_boxes ob"
    using expand_erase(1) [of w ob "fst (snd st)"] s by simp
  then show ?thesis using Some r s
    by (simp add: center_step_def put_at_erase)
qed

lemma foldl_center_step_erase:
  "map erase_boxes (fst (foldl center_step st paths)) = map erase_boxes (fst st)"
  by (induction paths arbitrary: st) (simp_all add: center_step_erase)

lemma focus_bounds_erase: "map erase_boxes (fst (focus_bounds ch)) = map erase_boxes ch"
  by (simp add: focus_bounds_def foldl_focus_step_erase)

lemma center_bounds_erase: "map erase_boxes (fst (center_bounds ch)) = map erase_boxes ch"
  by (simp add: center_bounds_def foldl_center_step_erase)

lemma traverse_self: "ob \<in> set (traverse ob)"
  by (cases ob) simp

lemma traverse_child:
  "c \<in> set (children ob) \<Longrightarrow> x \<in> set (traverse c) \<Longrightarrow> x \<in> set (traverse ob)"
  by (cases ob) auto

lemma get_at_in_traverse:
  "get_at w ns path = Some (w', ob) \<Longrightarrow> ob \<in> set (concat (map traverse ns))"
proof (induction w ns path rule: get_at.induct)
  case (1 w ns)
  then show ?case by simp
next
  case (2 w ns j js)
  then have j: "j < length ns" by (simp split: if_splits)
  show ?case
  proof (cases "js = []")
    case True
    with 2(2) j have "ob = ns ! j" by simp
    then show ?thesis using j traverse_self [of "ns ! j"] by (auto intro: nth_mem)
  next
    case False
    with 2 j have "ob \<in> set (concat (map traverse (children (ns ! j))))" by simp
    then obtain c where "c \<in> set (children (ns ! j))" "ob \<in> set (traverse c)" by auto
    then have "ob \<in> set (traverse (ns ! j))" by (rule traverse_child)
    then show ?thesis using j by (auto intro: nth_mem)
  qed
qed

lemma focus_objects_none:
  assumes "filter focus_filter (concat (map traverse ch)) = []"
  shows "focus_objects ch = []"
proof -
  have "\<not> focus_filter ob" if "get_at origin ch path = Some (w, ob)" for path w ob
    using get_at_in_traverse [OF that] assms by (auto simp: filter_empty_conv)
  then show ?thesis
    by (auto simp: focus_objects_def filter_empty_conv split: option.splits)
qed

lemma center_filter_focus: "center_filter ob \<Longrightarrow> focus_filter ob"
  by (simp add: center_filter_def focus_filter_def)

lemma foldl_center_step_none:
  assumes "\<forall>ob\<in>set (concat (map traverse (fst st))). \<not> center_filter ob"
  shows "foldl center_step st paths = st"
proof (induction paths)
  case Nil
  show ?case by simp
next
  case (Cons path paths)
  have "center_step st path = st"
  proof (cases "get_at origin (fst st) path")
    case None
    then show ?thesis by (simp add: center_step_def)
  next
    case (Some r)
    obtain w ob where r: "r = (w, ob)" by (cases r)
    have "\<not> center_filter ob" using get_at_in_traverse [of origin "fst st" path w ob] Some r assms by blast
    then show ?thesis using Some r by (simp add: center_step_def)
  qed
  then show ?case using Cons.IH by simp
qed

lemma center_step_found:
  "(\<not> snd (snd st) \<longrightarrow> fst (snd st) = EmptyBox) \<Longrightarrow>
     \<not> snd (snd (center_step st path)) \<longrightarrow> fst (snd (center_step st path)) = EmptyBox"
  by (auto simp: center_step_def split: option.splits prod.splits)

lemma foldl_center_step_found:
  "(\<not> snd (snd st) \<longrightarrow> fst (snd st) = EmptyBox) \<Longrightarrow>
     \<not> snd (snd (foldl center_step st paths)) \<longrightarrow> fst (snd (foldl center_step st paths)) = EmptyBox"
proof (induction paths arbitrary: st)
  case Nil
  then show ?case by simp
next
  case (Cons path paths)
  from center_step_found [OF Cons.prems] show ?case
    using Cons.IH [of "center_step st path"] by simp
qed

lemma center_bounds_found:
  "\<not> snd (snd (center_bounds ch)) \<Longrightarrow> fst (snd (center_bounds ch)) = EmptyBox"
  using foldl_center_step_found [of "(ch, EmptyBox, False)" "paths_from 0 ch"]
  by (simp add: center_bounds_def)

lemma traverse_erase: "map erase_boxes (traverse ob) = traverse (erase_boxes ob)"
proof (induction ob rule: traverse.induct)
  case (1 i k p g m ch)
  then show ?case by (simp add: map_concat comp_def cong: map_cong)
qed

lemma nodes_erase:
  "map erase_boxes (concat (map traverse ch)) = concat (map traverse (map erase_boxes ch))"
  by (simp add: map_concat comp_def traverse_erase)

lemma erase_fields [simp]:
  "oid (erase_boxes ob) = oid ob" "cls (erase_boxes ob) = cls ob"
  "position (erase_boxes ob) = position ob" "material (erase_boxes ob) = material ob"
  "map_option extent (geometry (erase_boxes ob)) = map_option extent (geometry ob)"
  by (cases ob; cases "geometry ob"; simp)+

lemma same_erased_same_fields:
  assumes "map erase_boxes ch' = map erase_boxes ch"
  shows "map oid (concat (map traverse ch')) = map oid (concat (map traverse ch))"
    and "map cls (concat (map traverse ch')) = map cls (concat (map traverse ch))"
    and "map position (concat (map traverse ch')) = map position (concat (map traverse ch))"
    and "map (\<lambda>ob. map_option extent (geometry ob)) (concat (map traverse ch')) =
         map (\<lambda>ob. map_option extent (geometry ob)) (concat (map traverse ch))"
proof -
  have e: "map erase_boxes (concat (map traverse ch')) = map erase_boxes (concat (map traverse ch))"
    using assms by (simp only: nodes_erase)
  have "map (oid \<circ> erase_boxes) (concat (map traverse ch')) = map (oid \<circ> erase_boxes) (concat (map traverse ch))"
    using arg_cong [OF e, of "map oid"] by (simp only: map_map)
  then show "map oid (concat (map traverse ch')) = map oid (concat (map traverse ch))"
    by (simp add: comp_def)
  have "map (cls \<circ> erase_boxes) (concat (map traverse ch')) = map (cls \<circ> erase_boxes) (concat (map traverse ch))"
    using arg_cong [OF e, of "map cls"] by (simp only: map_map)
  then show "map cls (concat (map traverse ch')) = map cls (concat (map traverse ch))"
    by (simp add: comp_def)
  have "map (position \<circ> erase_boxes) (concat (map traverse ch')) = map (position \<circ> erase_boxes) (concat (map traverse ch))"
    using arg_cong [OF e, of "map position"] by (simp only: map_map)
  then show "map position (concat (map traverse ch')) = map position (concat (map traverse ch))"
    by (simp add: comp_def)
  have "map ((\<lambda>ob. map_option extent (geometry ob)) \<circ> erase_boxes) (concat (map traverse ch')) =
        map ((\<lambda>ob. map_option extent (geometry ob)) \<circ> erase_boxes) (concat (map traverse ch))"
    using arg_cong [OF e, of "map (\<lambda>ob. map_option extent (geometry ob))"] by (simp only: map_map)
  then show "map (\<lambda>ob. map_option extent (geometry ob)) (concat (map traverse ch')) =
         map (\<lambda>ob. map_option extent (geometry ob)) (concat (map traverse ch))"
    by (simp add: comp_def)
qed

lemma traverse_move:
  "map oid (traverse (move_tree c ob)) = map oid (traverse ob)"
  "map cls (traverse (move_tree c ob)) = map cls (traverse ob)"
  "map position (traverse (move_tree c ob)) =
     map (\<lambda>n. if center_filter n then shift_xz c (position n) else position n) (traverse ob)"
proof (induction c ob rule: move_tree.induct)
  case (1 c i k p g m ch)
  {
    case 1
    show ?case using "1.IH"(1) by (simp add: map_concat comp_def cong: map_cong)
  next
    case 2
    show ?case using "1.IH"(2) by (simp add: map_concat comp_def cong: map_cong)
  next
    case 3
    show ?case using "1.IH"(3)
      by (simp add: map_concat comp_def center_filter_def isMesh_def
          instanceof_Light_def instanceof_GridHelper_def instanceof_AxesHelper_def cong: map_cong)
  }
qed

lemma focus_has_geometry:
  assumes "\<forall>ob\<in>set (concat (map traverse ch)). focus_filter ob \<longrightarrow> geometry ob \<noteq> None"
  shows "\<not> list_ex (lacks_geometry ch) (focus_objects ch)"
proof -
  have "\<not> lacks_geometry ch path" if "path \<in> set (focus_objects ch)" for path
  proof (cases "get_at origin ch path")
    case None
    then show ?thesis by (simp add: lacks_geometry_def)
  next
    case (Some r)
    obtain w ob where r: "r = (w, ob)" by (cases r)
    have "focus_filter ob" using that Some r by (simp add: focus_objects_def)
    moreover have "ob \<in> set (concat (map traverse ch))"
      using get_at_in_traverse [of origin ch path w ob] Some r by simp
    ultimately have "geometry ob \<noteq> None" using assms by blast
    then show ?thesis using Some r by (simp add: lacks_geometry_def)
  qed
  then show ?thesis by (auto simp: list_ex_iff)
qed

lemma focusOnModel_frames:
  assumes "scene vp = Some sc" and "controls vp = Some c"
    and "focus_objects (sc_children sc) \<noteq> []"
    and "\<not> list_ex (lacks_geometry (sc_children sc)) (focus_objects (sc_children sc))"
    and "getCenter (snd (focus_bounds (sc_children sc))) = center"
    and "getSize (snd (focus_bounds (sc_children sc))) = sz"
    and "max (max (vx sz) (vy sz)) (vz sz) * 2 = distance"
  shows "focusOnModel vp =
           Inr (vp\<lparr>scene := Some (sc\<lparr>sc_children := fst (focus_bounds (sc_children sc))\<rparr>),
                   camera := (camera vp)\<lparr>cam_position :=
                                Vector3 (vx center + distance) (vy center + distance) (vz center + distance),
                              cam_lookAt := center\<rparr>,
                   controls := Some (c\<lparr>target := center, updates := Suc (updates c)\<rparr>)\<rparr>)"
  using assms by (simp add: focusOnModel_def Let_def)

subsection \<open>Camera presets and framing\<close>




text \<open>
  Claim C3. Let the scene be such that every mesh \<^verbatim>\<open>focusOnModel\<close> collects has a geometry and
  the box the loop of lines 185 to 190 builds is \<open>min = (-1,-1,-1)\<close>, \<open>max = (1,1,1)\<close>. Then
  \<^verbatim>\<open>focusOnModel\<close> returns normally with the camera at \<open>(4,4,4)\<close>, aimed at \<open>(0,0,0)\<close>, and the
  target of the controls at \<open>(0,0,0)\<close>: the centre is \<open>(0,0,0)\<close>, the size \<open>(2,2,2)\<close>, the
  distance \<open>2 * 2 = 4\<close>, and the position is the centre plus the distance on each axis.
\<close>

theorem focusOnModel_frames_unit_box:
  assumes "scene vp = Some sc" and "controls vp = Some c"
    and "\<forall>ob\<in>set (graph_nodes vp). focus_filter ob \<longrightarrow> geometry ob \<noteq> None"
    and "snd (focus_bounds (sc_children sc)) = Box3 (Vector3 (-1) (-1) (-1)) (Vector3 1 1 1)"
  shows "\<exists>vp'. focusOnModel vp = Inr vp' \<and>
           cam_position (camera vp') = Vector3 4 4 4 \<and>
           cam_lookAt (camera vp') = Vector3 0 0 0 \<and>
           controls vp' = Some (c\<lparr>target := Vector3 0 0 0, updates := Suc (updates c)\<rparr>)"
proof -
  have objs: "focus_objects (sc_children sc) \<noteq> []"
    using assms(4) by (auto simp: focus_bounds_def)
  have geo: "\<not> list_ex (lacks_geometry (sc_children sc)) (focus_objects (sc_children sc))"
    using assms(1,3) by (intro focus_has_geometry) (simp add: graph_nodes_def)
  have center: "getCenter (snd (focus_bounds (sc_children sc))) = Vector3 0 0 0"
    using assms(4) by (simp add: getCenter_def)
  have sz: "getSize (snd (focus_bounds (sc_children sc))) = Vector3 2 2 2"
    using assms(4) by (simp add: getSize_def vsub_def)
  have dist: "max (max (vx (Vector3 2 2 2)) (vy (Vector3 2 2 2))) (vz (Vector3 2 2 2)) * 2 = (4::rat)"
    by simp
  show ?thesis
    using focusOnModel_frames [OF assms(1,2) objs geo center sz dist] by simp
qed

theorem focusOnModel_frames_unit_box_witness:
  "scene (example_state (default_nodes 0 @ [cube 7 (Vector3 0 0 0)])) =
     Some \<lparr>background = default_background, sc_children = default_nodes 0 @ [cube 7 (Vector3 0 0 0)]\<rparr> \<and>
   snd (focus_bounds (default_nodes 0 @ [cube 7 (Vector3 0 0 0)])) =
     Box3 (Vector3 (-1) (-1) (-1)) (Vector3 1 1 1) \<and>
   (\<exists>vp'. focusOnModel (example_state (default_nodes 0 @ [cube 7 (Vector3 0 0 0)])) = Inr vp' \<and>
      cam_position (camera vp') = Vector3 4 4 4 \<and>
      cam_lookAt (camera vp') = Vector3 0 0 0 \<and>
      controls vp' = Some \<lparr>target = Vector3 0 0 0, updates = 2\<rparr>)"
proof -
  let ?ch = "default_nodes 0 @ [cube 7 (Vector3 0 0 0)]"
  have h1: "scene (example_state ?ch) = Some \<lparr>background = default_background, sc_children = ?ch\<rparr>"
    by (simp add: example_state_def)
  have h2: "controls (example_state ?ch) = Some \<lparr>target = Vector3 0 0 0, updates = 1\<rparr>"
    by (simp add: example_state_def)
  have h3: "\<forall>ob\<in>set (graph_nodes (example_state ?ch)). focus_filter ob \<longrightarrow> geometry ob \<noteq> None"
    by (simp add: example_state_def graph_nodes_def node_defs focus_filter_def class_defs)
  have h4: "snd (focus_bounds (sc_children \<lparr>background = default_background, sc_children = ?ch\<rparr>)) =
              Box3 (Vector3 (-1) (-1) (-1)) (Vector3 1 1 1)"
    by (simp add: focus_defs vec_defs node_defs class_defs)
  show ?thesis
    using focusOnModel_frames_unit_box [OF h1 h2 h3 h4] h1 h4 by (simp add: eval_nat_numeral)
qed

text \<open>
  Claim C8. When no object of the scene passes the test of line 177, the loop over the
  collected objects is empty and leaves the fresh, empty box; \<^verbatim>\<open>focusOnModel\<close> returns
  normally with the state as it was: camera position, look-at point and target of the
  controls are unchanged. The traversal of \<^verbatim>\<open>centerModel\<close> finds nothing either, leaves the empty
  box, and \<^verbatim>\<open>centerModel\<close> returns the state as it was.
\<close>

theorem no_content_nothing_framed:
  assumes "scene vp = Some sc" and "filter focus_filter (graph_nodes vp) = []"
  shows "focus_bounds (sc_children sc) = (sc_children sc, EmptyBox) \<and>
         focusOnModel vp = Inr vp \<and>
         center_bounds (sc_children sc) = (sc_children sc, EmptyBox, False) \<and>
         centerModel vp = vp"
proof -
  have none: "filter focus_filter (concat (map traverse (sc_children sc))) = []"
    using assms by (simp add: graph_nodes_def)
  then have objs: "focus_objects (sc_children sc) = []" by (rule focus_objects_none)
  have "\<forall>ob\<in>set (concat (map traverse (sc_children sc))). \<not> center_filter ob"
    using none center_filter_focus by (auto simp: filter_empty_conv)
  then have cb: "center_bounds (sc_children sc) = (sc_children sc, EmptyBox, False)"
    using foldl_center_step_none [of "(sc_children sc, EmptyBox, False)"]
    by (simp add: center_bounds_def)
  show ?thesis using assms(1) objs cb
    by (simp add: focus_bounds_def focusOnModel_def centerModel_def)
qed

theorem no_content_nothing_framed_witness:
  "scene (example_state (default_nodes 0)) =
     Some \<lparr>background = default_background, sc_children = default_nodes 0\<rparr> \<and>
   filter focus_filter (graph_nodes (example_state (default_nodes 0))) = [] \<and>
   focus_bounds (default_nodes 0) = (default_nodes 0, EmptyBox) \<and>
   focusOnModel (example_state (default_nodes 0)) = Inr (example_state (default_nodes 0)) \<and>
   centerModel (example_state (default_nodes 0)) = example_state (default_nodes 0)"
proof -
  have h1: "scene (example_state (default_nodes 0)) =
     Some \<lparr>background = default_background, sc_children = default_nodes 0\<rparr>"
    by (simp add: example_state_def)
  have h2: "filter focus_filter (graph_nodes (example_state (default_nodes 0))) = []"
    by (simp add: example_state_def graph_nodes_def node_defs focus_filter_def class_defs)
  show ?thesis using no_content_nothing_framed [OF h1 h2] h1 h2 by simp
qed

subsection \<open>What computing the bounds writes\<close>

text \<open>
  Claim C5, as amended. Computing the bounds, as \<^verbatim>\<open>focusOnModel\<close> (lines 185 to 190) and
  \<^verbatim>\<open>centerModel\<close> (lines 224 to 232) do, writes nothing but the field \<^verbatim>\<open>boundingBox\<close> of
  geometries: with these fields erased the graph after is the graph before. In particular
  every node keeps its position and every geometry its vertex data.
\<close>

theorem bounds_write_only_the_box_field:
  "map erase_boxes (fst (focus_bounds ch)) = map erase_boxes ch \<and>
   map erase_boxes (fst (center_bounds ch)) = map erase_boxes ch \<and>
   map position (concat (map traverse (fst (focus_bounds ch)))) = map position (concat (map traverse ch)) \<and>
   map position (concat (map traverse (fst (center_bounds ch)))) = map position (concat (map traverse ch)) \<and>
   map (\<lambda>ob. map_option extent (geometry ob)) (concat (map traverse (fst (focus_bounds ch)))) =
     map (\<lambda>ob. map_option extent (geometry ob)) (concat (map traverse ch)) \<and>
   map (\<lambda>ob. map_option extent (geometry ob)) (concat (map traverse (fst (center_bounds ch)))) =
     map (\<lambda>ob. map_option extent (geometry ob)) (concat (map traverse ch))"
  using same_erased_same_fields(3,4) [OF focus_bounds_erase [of ch]]
    same_erased_same_fields(3,4) [OF center_bounds_erase [of ch]]
  by (simp add: focus_bounds_erase center_bounds_erase)

theorem bounds_write_only_the_box_field_witness:
  "map erase_boxes (fst (focus_bounds [cube 7 (Vector3 0 0 0)])) = [erase_boxes (cube 7 (Vector3 0 0 0))] \<and>
   map position (concat (map traverse (fst (center_bounds [cube 7 (Vector3 0 0 0)])))) = [Vector3 0 0 0]"
  using bounds_write_only_the_box_field [of "[cube 7 (Vector3 0 0 0)]"]
  by (simp add: cube_def)

text \<open>
  Claim C5 as stated fails: the computation is not read-only. For a cube whose geometry
  has no bounding box yet, both computations return the graph with the box stored in the
  geometry (line 187 calls \<^verbatim>\<open>computeBoundingBox()\<close>; \<^verbatim>\<open>expandByObject\<close> computes a box that is
  missing).
\<close>

theorem bounds_fill_the_box_field:
  "fst (focus_bounds [cube 7 (Vector3 0 0 0)]) = [compute_own (cube 7 (Vector3 0 0 0))] \<and>
   fst (center_bounds [cube 7 (Vector3 0 0 0)]) = [compute_own (cube 7 (Vector3 0 0 0))] \<and>
   compute_own (cube 7 (Vector3 0 0 0)) \<noteq> cube 7 (Vector3 0 0 0) \<and>
   geometry (cube 7 (Vector3 0 0 0)) =
     Some \<lparr>geo_id = 7, extent = Box3 (Vector3 (-1) (-1) (-1)) (Vector3 1 1 1), boundingBox = None\<rparr> \<and>
   geometry (compute_own (cube 7 (Vector3 0 0 0))) =
     Some \<lparr>geo_id = 7, extent = Box3 (Vector3 (-1) (-1) (-1)) (Vector3 1 1 1),
           boundingBox = Some (Box3 (Vector3 (-1) (-1) (-1)) (Vector3 1 1 1))\<rparr>"
  by (simp add: focus_defs center_defs vec_defs node_defs class_defs)

subsection \<open>centerModel\<close>

text \<open>
  Claim C7. Let the centre of the box that \<^verbatim>\<open>centerModel\<close> builds be \<open>(5, 3, -2)\<close>. Then the graph
  keeps its nodes, in the same order and of the same classes; every node that passes the
  test of lines 243 to 246 (a mesh that is no light, grid or axes: the content the box
  was built from) has its \<open>x\<close> lowered by 5 and its \<open>z\<close> raised by 2, with \<open>y\<close> as it was;
  every other node keeps its position, and a light, a grid or an axes helper never passes
  the test. The target of the controls, when there are controls, is \<open>(0,0,0)\<close>; the camera
  is as before.
\<close>

theorem centerModel_shifts_meshes_in_x_and_z:
  assumes "scene vp = Some sc"
    and "getCenter (fst (snd (center_bounds (sc_children sc)))) = Vector3 5 3 (-2)"
  shows "map oid (graph_nodes (centerModel vp)) = map oid (graph_nodes vp) \<and>
         map cls (graph_nodes (centerModel vp)) = map cls (graph_nodes vp) \<and>
         map position (graph_nodes (centerModel vp)) =
           map (\<lambda>n. if center_filter n
                     then Vector3 (vx (position n) - 5) (vy (position n)) (vz (position n) + 2)
                     else position n) (graph_nodes vp) \<and>
         (\<forall>n\<in>set (graph_nodes vp). permanent n \<longrightarrow> \<not> center_filter n) \<and>
         controls (centerModel vp) =
           map_option (\<lambda>c. c\<lparr>target := Vector3 0 0 0, updates := Suc (updates c)\<rparr>) (controls vp) \<and>
         camera (centerModel vp) = camera vp"
proof -
  let ?st = "center_bounds (sc_children sc)"
  have found: "snd (snd ?st)"
  proof (rule ccontr)
    assume "\<not> snd (snd ?st)"
    then have "fst (snd ?st) = EmptyBox" by (rule center_bounds_found)
    then show False using assms(2) by (simp add: getCenter_def)
  qed
  have same: "map erase_boxes (fst ?st) = map erase_boxes (sc_children sc)"
    by (rule center_bounds_erase)
  have nodes: "graph_nodes (centerModel vp) =
                 concat (map traverse (map (move_tree (Vector3 5 3 (-2))) (fst ?st)))"
    using assms found by (simp add: centerModel_def Let_def graph_nodes_def split: option.splits)
  have before: "graph_nodes vp = concat (map traverse (sc_children sc))"
    using assms(1) by (simp add: graph_nodes_def)
  have ids: "map oid (graph_nodes (centerModel vp)) = map oid (graph_nodes vp)"
    using same_erased_same_fields(1) [OF same]
    by (simp add: nodes before map_concat comp_def traverse_move)
  have classes: "map cls (graph_nodes (centerModel vp)) = map cls (graph_nodes vp)"
    using same_erased_same_fields(2) [OF same]
    by (simp add: nodes before map_concat comp_def traverse_move)
  have "map position (graph_nodes (centerModel vp)) =
          map (\<lambda>n. if center_filter n then shift_xz (Vector3 5 3 (-2)) (position n) else position n)
              (concat (map traverse (fst ?st)))"
    by (simp add: nodes map_concat comp_def traverse_move)
  also have "\<dots> = map (\<lambda>(k, p). if k = Mesh then shift_xz (Vector3 5 3 (-2)) p else p)
                       (zip (map cls (concat (map traverse (fst ?st))))
                            (map position (concat (map traverse (fst ?st)))))"
    by (simp add: zip_map_map comp_def center_filter_def class_defs) (auto simp: zip_same_conv_map)
  also have "\<dots> = map (\<lambda>(k, p). if k = Mesh then shift_xz (Vector3 5 3 (-2)) p else p)
                       (zip (map cls (concat (map traverse (sc_children sc))))
                            (map position (concat (map traverse (sc_children sc)))))"
    using same_erased_same_fields(2,3) [OF same] by simp
  also have "\<dots> = map (\<lambda>n. if center_filter n
                     then Vector3 (vx (position n) - 5) (vy (position n)) (vz (position n) + 2)
                     else position n) (graph_nodes vp)"
    by (simp add: before zip_map_map comp_def center_filter_def class_defs shift_xz_def)
       (auto simp: zip_same_conv_map shift_xz_def)
  finally have positions: "map position (graph_nodes (centerModel vp)) =
           map (\<lambda>n. if center_filter n
                     then Vector3 (vx (position n) - 5) (vy (position n)) (vz (position n) + 2)
                     else position n) (graph_nodes vp)" .
  have perm: "\<forall>n\<in>set (graph_nodes vp). permanent n \<longrightarrow> \<not> center_filter n"
    by (auto simp: center_filter_def class_defs)
  have ctl: "controls (centerModel vp) =
           map_option (\<lambda>c. c\<lparr>target := Vector3 0 0 0, updates := Suc (updates c)\<rparr>) (controls vp)"
    using assms found by (simp add: centerModel_def Let_def split: option.splits)
  have cam: "camera (centerModel vp) = camera vp"
    using assms found by (simp add: centerModel_def Let_def split: option.splits)
  show ?thesis using ids classes positions perm ctl cam by blast
qed

theorem centerModel_shifts_meshes_in_x_and_z_witness:
  "scene (example_state [new_DirectionalLight 1, cube 7 (Vector3 3 3 (-2)), cube 8 (Vector3 7 3 (-2))]) =
     Some \<lparr>background = default_background,
           sc_children = [new_DirectionalLight 1, cube 7 (Vector3 3 3 (-2)), cube 8 (Vector3 7 3 (-2))]\<rparr> \<and>
   getCenter (fst (snd (center_bounds
      [new_DirectionalLight 1, cube 7 (Vector3 3 3 (-2)), cube 8 (Vector3 7 3 (-2))]))) = Vector3 5 3 (-2) \<and>
   map position (graph_nodes (centerModel
      (example_state [new_DirectionalLight 1, cube 7 (Vector3 3 3 (-2)), cube 8 (Vector3 7 3 (-2))]))) =
     [Vector3 10 20 15, Vector3 (-2) 3 0, Vector3 2 3 0] \<and>
   controls (centerModel
      (example_state [new_DirectionalLight 1, cube 7 (Vector3 3 3 (-2)), cube 8 (Vector3 7 3 (-2))])) =
     Some \<lparr>target = Vector3 0 0 0, updates = 2\<rparr>"
proof -
  let ?ch = "[new_DirectionalLight 1, cube 7 (Vector3 3 3 (-2)), cube 8 (Vector3 7 3 (-2))]"
  have h1: "scene (example_state ?ch) = Some \<lparr>background = default_background, sc_children = ?ch\<rparr>"
    by (simp add: example_state_def)
  have h2: "getCenter (fst (snd (center_bounds
              (sc_children \<lparr>background = default_background, sc_children = ?ch\<rparr>)))) = Vector3 5 3 (-2)"
    by (simp add: center_defs vec_defs node_defs class_defs)
  have nodes: "graph_nodes (example_state ?ch) = ?ch"
    by (simp add: example_state_def graph_nodes_def node_defs)
  have ctl: "controls (example_state ?ch) = Some \<lparr>target = Vector3 0 0 0, updates = 1\<rparr>"
    by (simp add: example_state_def)
  from centerModel_shifts_meshes_in_x_and_z [OF h1 h2] have
    pos: "map position (graph_nodes (centerModel (example_state ?ch))) =
           map (\<lambda>n. if center_filter n
                     then Vector3 (vx (position n) - 5) (vy (position n)) (vz (position n) + 2)
                     else position n) (graph_nodes (example_state ?ch))" and
    tgt: "controls (centerModel (example_state ?ch)) =
           map_option (\<lambda>c. c\<lparr>target := Vector3 0 0 0, updates := Suc (updates c)\<rparr>)
             (controls (example_state ?ch))"
    by simp_all
  have moved: "map (\<lambda>n. if center_filter n
                     then Vector3 (vx (position n) - 5) (vy (position n)) (vz (position n) + 2)
                     else position n) ?ch = [Vector3 10 20 15, Vector3 (-2) 3 0, Vector3 2 3 0]"
    by (simp add: node_defs center_filter_def class_defs)
  have "map position (graph_nodes (centerModel (example_state ?ch))) =
          [Vector3 10 20 15, Vector3 (-2) 3 0, Vector3 2 3 0]"
    using pos moved by (simp only: nodes)
  moreover have "controls (centerModel (example_state ?ch)) = Some \<lparr>target = Vector3 0 0 0, updates = 2\<rparr>"
    using tgt [unfolded ctl] by simp
  ultimately show ?thesis using h1 h2 by simp
qed

end
